theory Spec2Isabelle
  imports Main "HOL-Library.AList"
begin

section \<open>JavaScript values\<close>

text \<open>
  The server (\<^verbatim>\<open>src/server.js\<close>) handles JSON request bodies, Realtime Database snapshots
  and messaging payloads, all of them plain JavaScript values. A missing property reads as
  \<open>JUndefined\<close>. Numbers are modelled as integers: the program only tests them for
  truthiness and strict equality and interpolates them into a path (JSON yields no NaN).
  An object lists each of its keys once, in enumeration order.
\<close>

datatype jsval =
    JUndefined
  | JNull
  | JBool bool
  | JNum int
  | JStr string
  | JArr "jsval list"
  | JObj "(string \<times> jsval) list"

text \<open>The truthiness test behind \<^verbatim>\<open>!x\<close>, \<^verbatim>\<open>a || b\<close>, \<^verbatim>\<open>a && b\<close> and \<^verbatim>\<open>if (x)\<close>.\<close>

fun truthy :: "jsval \<Rightarrow> bool" where
  "truthy JUndefined = False"
| "truthy JNull = False"
| "truthy (JBool b) = b"
| "truthy (JNum n) = (n \<noteq> 0)"
| "truthy (JStr s) = (s \<noteq> [])"
| "truthy (JArr xs) = True"
| "truthy (JObj kvs) = True"

fun nullish :: "jsval \<Rightarrow> bool" where
  "nullish JUndefined = True"
| "nullish JNull = True"
| "nullish v = False"

text \<open>
  Strict equality \<^verbatim>\<open>===\<close>. Arrays and objects are compared by reference; wherever the
  program compares two values, one comes from the request body or is a literal and the
  other comes from a database snapshot or is a \<^verbatim>\<open>for..in\<close> key, so two arrays or two
  objects are never the same reference.
\<close>

fun strict_eq :: "jsval \<Rightarrow> jsval \<Rightarrow> bool" where
  "strict_eq JUndefined JUndefined = True"
| "strict_eq JNull JNull = True"
| "strict_eq (JBool a) (JBool b) = (a = b)"
| "strict_eq (JNum a) (JNum b) = (a = b)"
| "strict_eq (JStr a) (JStr b) = (a = b)"
| "strict_eq a b = False"

text \<open>Decimal digits of an array index, and of a number interpolated into a string.\<close>

fun dec :: "nat \<Rightarrow> string" where
  "dec n = (if n < 10 then [''0123456789'' ! n]
            else dec (n div 10) @ [''0123456789'' ! (n mod 10)])"

declare dec.simps [simp del]

definition dec_int :: "int \<Rightarrow> string" where
  "dec_int i = (if i < 0 then CHR ''-'' # dec (nat (- i)) else dec (nat i))"

text \<open>
  The enumerable own properties of a value, as \<^verbatim>\<open>for (k in v)\<close> visits them and as
  \<^verbatim>\<open>v[k]\<close> reads them: the entries of an object, the indices of an array (an
  \<open>JUndefined\<close> element is a hole, which has no property) and the indices of a string.
  Numbers and booleans have none. (\<^verbatim>\<open>length\<close> is not enumerable and is read by
  \<open>js_length\<close> below.)
\<close>

fun own_entries :: "jsval \<Rightarrow> (string \<times> jsval) list" where
  "own_entries (JObj kvs) = kvs"
| "own_entries (JArr xs) =
     filter (\<lambda>(k, x). x \<noteq> JUndefined) (zip (map dec [0..<length xs]) xs)"
| "own_entries (JStr s) = zip (map dec [0..<length s]) (map (\<lambda>c. JStr [c]) s)"
| "own_entries v = []"

text \<open>
  Property read \<^verbatim>\<open>v.k\<close> / \<^verbatim>\<open>v[k]\<close>. On \<^verbatim>\<open>null\<close> and \<^verbatim>\<open>undefined\<close> JavaScript
  throws a TypeError; every call site below either is guarded by a truthiness test or
  tests \<open>nullish\<close> first and raises.
\<close>

definition get_prop :: "jsval \<Rightarrow> string \<Rightarrow> jsval" where
  "get_prop v k = (case map_of (own_entries v) k of None \<Rightarrow> JUndefined | Some x \<Rightarrow> x)"

text \<open>
  Property assignment \<^verbatim>\<open>v.k = x\<close>. On a primitive it is silently ignored (the file is
  not in strict mode).
\<close>

fun set_prop :: "jsval \<Rightarrow> string \<Rightarrow> jsval \<Rightarrow> jsval" where
  "set_prop (JObj kvs) k x = JObj (AList.update k x kvs)"
| "set_prop v k x = v"

fun join_commas :: "string list \<Rightarrow> string" where
  "join_commas [] = []"
| "join_commas [s] = s"
| "join_commas (s # t # ss) = s @ CHR '','' # join_commas (t # ss)"

text \<open>String conversion, as a template literal \<^verbatim>\<open>`${v}`\<close> performs it.\<close>

fun to_string :: "jsval \<Rightarrow> string" where
  "to_string JUndefined = ''undefined''"
| "to_string JNull = ''null''"
| "to_string (JBool b) = (if b then ''true'' else ''false'')"
| "to_string (JNum n) = dec_int n"
| "to_string (JStr s) = s"
| "to_string (JArr xs) = join_commas (map (\<lambda>x. if nullish x then [] else to_string x) xs)"
| "to_string (JObj kvs) = ''[object Object]''"

section \<open>The accept transition\<close>

text \<open>
  The update function passed to \<^verbatim>\<open>activeCallRef.transaction\<close> (server.js, lines 106-124).
  \<^verbatim>\<open>return;\<close> yields \<open>JUndefined\<close>, which aborts the transaction.
\<close>

definition accept_update :: "jsval \<Rightarrow> jsval \<Rightarrow> jsval \<Rightarrow> jsval" where
  "accept_update callId acceptedByDeviceId currentData =
     (if \<not> truthy currentData \<or> \<not> strict_eq (get_prop currentData ''callId'') callId
      then JUndefined
      else if \<not> strict_eq (get_prop currentData ''status'') (JStr ''ringing'')
      then JUndefined
      else set_prop (set_prop currentData ''status'' (JStr ''in_progress''))
             ''acceptedByDeviceId'' acceptedByDeviceId)"

section \<open>The store and the push transport\<close>

text \<open>
  The Realtime Database maps a path to the value stored there, \<open>JNull\<close> where nothing
  is stored. The program addresses two paths per request, which are distinct locations.
\<close>

type_synonym store = "string \<Rightarrow> jsval"

record txn_result =
  committed :: bool
  snapshot :: jsval

text \<open>
  Modelled from the spec: the store's transaction primitive \<^verbatim>\<open>ref.transaction(update)\<close>
  belongs to the firebase-admin library, which is not under src/. Following sections 4.1
  and 9 of the specification it is an atomic read-modify-write of the stored value: the
  update function runs on the current value; returning \<^verbatim>\<open>undefined\<close> aborts without any
  write, and the result then carries the value found; any other return value is written
  and reported as committed. (Retries on conflict are transparent to the caller, and a
  first run of the update function on a locally cached value is not part of this contract.)
\<close>

definition run_transaction :: "store \<Rightarrow> string \<Rightarrow> (jsval \<Rightarrow> jsval) \<Rightarrow> txn_result \<times> store" where
  "run_transaction db path update =
     (let new = update (db path)
      in if new = JUndefined
         then (\<lparr>committed = False, snapshot = db path\<rparr>, db)
         else (\<lparr>committed = True, snapshot = new\<rparr>, db(path := new)))"

text \<open>One entry of \<^verbatim>\<open>BatchResponse.responses\<close>, as the messaging library reports it.\<close>

record send_response =
  success :: bool
  detail :: string

definition js_of_response :: "send_response \<Rightarrow> jsval" where
  "js_of_response r =
     JObj [(''success'', JBool (success r)),
           (if success r then ''messageId'' else ''error'', JStr (detail r))]"

text \<open>
  What the collaborators do on one request; each may fail, and the failure is the message
  of the error thrown (\<open>Some\<close>, or \<open>Inl\<close>):
  \<^item> \<open>ref_error\<close>: \<^verbatim>\<open>db.ref(path)\<close> throws (for instance on a path it rejects);
  \<^item> \<open>txn_error\<close>: the promise of \<^verbatim>\<open>ref.transaction\<close> rejects, nothing being written;
  \<^item> \<open>once_error\<close>: the promise of \<^verbatim>\<open>ref.once('value')\<close> rejects;
  \<^item> \<open>send_each\<close>: \<^verbatim>\<open>admin.messaging().sendEachForMulticast(message)\<close> throws, or returns
    one response per token.
\<close>

record env =
  ref_error :: "string \<Rightarrow> string option"
  txn_error :: "string \<Rightarrow> string option"
  once_error :: "string \<Rightarrow> string option"
  send_each :: "jsval \<Rightarrow> string + send_response list"

text \<open>The calls a handler makes to its collaborators, in order.\<close>

datatype effect = Transaction string | Once string | SendEach jsval

text \<open>
  A handler either sends a response (status and JSON body), or an exception escapes it
  before any response is sent.
\<close>

datatype outcome = Reply nat jsval | Unhandled string

text \<open>
  The messages of the TypeErrors the engine raises: on reading property \<open>k\<close> of a null
  or undefined value, and on destructuring a null or undefined \<^verbatim>\<open>req.body\<close>. \<open>CHR 0x27\<close> is
  the single quote.
\<close>

definition type_error :: "jsval \<Rightarrow> string \<Rightarrow> string" where
  "type_error v k =
     ''Cannot read properties of '' @ to_string v @ '' (reading '' @ [CHR 0x27] @ k @
     [CHR 0x27] @ '')''"

definition destructure_error :: "jsval \<Rightarrow> string \<Rightarrow> string" where
  "destructure_error v k =
     ''Cannot destructure property '' @ [CHR 0x27] @ k @ [CHR 0x27] @ '' of '' @
     [CHR 0x27] @ ''req.body'' @ [CHR 0x27] @ '' as it is '' @ to_string v @ ''.''"

section \<open>POST /acceptCall\<close>

definition activeCall_path :: "jsval \<Rightarrow> string" where
  "activeCall_path currentUid = ''calls/'' @ to_string currentUid @ ''/activeCall''"

definition devices_path :: "jsval \<Rightarrow> string" where
  "devices_path currentUid = ''calls/'' @ to_string currentUid @ ''/devices''"

text \<open>
  The loop of lines 143-148 over the keys of \<^verbatim>\<open>allDevices\<close>, the list
  \<^verbatim>\<open>fcmTokensToNotify\<close> being the accumulator. \<^verbatim>\<open>&&\<close> reads the entry only when the key
  is not the accepting device; reading \<^verbatim>\<open>.fcmToken\<close> of a null entry throws.
\<close>

fun collect_tokens :: "jsval \<Rightarrow> jsval \<Rightarrow> string list \<Rightarrow> jsval list \<Rightarrow> string + jsval list" where
  "collect_tokens acceptedByDeviceId allDevices [] fcmTokensToNotify = Inr fcmTokensToNotify"
| "collect_tokens acceptedByDeviceId allDevices (deviceIdKey # keys) fcmTokensToNotify =
     (if strict_eq (JStr deviceIdKey) acceptedByDeviceId
      then collect_tokens acceptedByDeviceId allDevices keys fcmTokensToNotify
      else if nullish (get_prop allDevices deviceIdKey)
      then Inl (type_error (get_prop allDevices deviceIdKey) ''fcmToken'')
      else if truthy (get_prop (get_prop allDevices deviceIdKey) ''fcmToken'')
      then collect_tokens acceptedByDeviceId allDevices keys
             (fcmTokensToNotify @ [get_prop (get_prop allDevices deviceIdKey) ''fcmToken''])
      else collect_tokens acceptedByDeviceId allDevices keys fcmTokensToNotify)"

definition ringEndedMessage :: "jsval \<Rightarrow> jsval \<Rightarrow> jsval list \<Rightarrow> jsval" where
  "ringEndedMessage callId acceptedByDeviceId fcmTokensToNotify =
     JObj [(''data'', JObj [(''type'', JStr ''ring_ended''),
                            (''callId'', callId),
                            (''acceptedByDeviceId'', acceptedByDeviceId)]),
           (''tokens'', JArr fcmTokensToNotify),
           (''priority'', JStr ''high''),
           (''android'', JObj [(''priority'', JStr ''high'')]),
           (''content_available'', JBool True)]"

definition accepted_reply :: "jsval \<Rightarrow> jsval \<Rightarrow> jsval \<Rightarrow> jsval \<Rightarrow> outcome" where
  "accepted_reply callId token channel acceptedByDeviceId =
     Reply 200 (JObj [(''message'', JStr ''Call accepted successfully''),
                      (''callId'', callId),
                      (''token'', token),
                      (''channel'', channel),
                      (''acceptedByDeviceId'', acceptedByDeviceId)])"

definition internal_error :: "string \<Rightarrow> outcome" where
  "internal_error msg =
     Reply 500 (JObj [(''error'', JStr ''Internal server error during call acceptance''),
                      (''details'', JStr msg)])"

definition conflict :: "string \<Rightarrow> outcome" where
  "conflict msg = Reply 409 (JObj [(''error'', JStr msg)])"

text \<open>
  Lines 136-180: what follows a committed transaction. \<open>db\<close> is the store after the
  commit and \<open>log\<close> the calls made so far. The inner \<^verbatim>\<open>try\<close> only surrounds the send,
  whose result and whose error are both logged and dropped.
\<close>

definition notify_others ::
  "env \<Rightarrow> store \<Rightarrow> effect list \<Rightarrow> jsval \<Rightarrow> jsval \<Rightarrow> jsval \<Rightarrow> jsval \<Rightarrow> jsval
     \<Rightarrow> outcome \<times> store \<times> effect list" where
  "notify_others env db log callId acceptedByDeviceId currentUid token channel =
     (case ref_error env (devices_path currentUid) of
        Some e \<Rightarrow> (internal_error e, db, log)
      | None \<Rightarrow>
     (case once_error env (devices_path currentUid) of
        Some e \<Rightarrow> (internal_error e, db, log @ [Once (devices_path currentUid)])
      | None \<Rightarrow>
     (let allDevices = db (devices_path currentUid);
          log1 = log @ [Once (devices_path currentUid)]
      in if truthy allDevices
         then (case collect_tokens acceptedByDeviceId allDevices
                      (map fst (own_entries allDevices)) [] of
                 Inl e \<Rightarrow> (internal_error e, db, log1)
               | Inr fcmTokensToNotify \<Rightarrow>
                   if length fcmTokensToNotify > 0
                   then (case send_each env
                                (ringEndedMessage callId acceptedByDeviceId fcmTokensToNotify) of
                           Inr fcmResponse \<Rightarrow>
                             (accepted_reply callId token channel acceptedByDeviceId, db,
                              log1 @ [SendEach (ringEndedMessage callId acceptedByDeviceId
                                                  fcmTokensToNotify)])
                         | Inl fcmError \<Rightarrow>
                             (accepted_reply callId token channel acceptedByDeviceId, db,
                              log1 @ [SendEach (ringEndedMessage callId acceptedByDeviceId
                                                  fcmTokensToNotify)]))
                   else (accepted_reply callId token channel acceptedByDeviceId, db, log1))
         else (accepted_reply callId token channel acceptedByDeviceId, db, log1))))"

text \<open>Lines 105-185: the \<^verbatim>\<open>try\<close> block of the handler and its \<^verbatim>\<open>catch\<close>.\<close>

definition accept_try ::
  "env \<Rightarrow> store \<Rightarrow> jsval \<Rightarrow> jsval \<Rightarrow> jsval \<Rightarrow> jsval \<Rightarrow> jsval
     \<Rightarrow> outcome \<times> store \<times> effect list" where
  "accept_try env db callId acceptedByDeviceId currentUid token channel =
     (case txn_error env (activeCall_path currentUid) of
        Some e \<Rightarrow> (internal_error e, db, [Transaction (activeCall_path currentUid)])
      | None \<Rightarrow>
     (let (transactionResult, db1) =
            run_transaction db (activeCall_path currentUid)
              (accept_update callId acceptedByDeviceId)
      in if \<not> committed transactionResult
         then (if truthy (snapshot transactionResult) \<and>
                  strict_eq (get_prop (snapshot transactionResult) ''status'')
                    (JStr ''in_progress'')
               then (conflict ''Call already accepted by another device.'', db1,
                     [Transaction (activeCall_path currentUid)])
               else (conflict ''Call no longer active or invalid call ID.'', db1,
                     [Transaction (activeCall_path currentUid)]))
         else notify_others env db1 [Transaction (activeCall_path currentUid)]
                callId acceptedByDeviceId currentUid token channel))"

text \<open>
  Lines 95-186. \<open>body\<close> is \<^verbatim>\<open>req.body\<close>; destructuring a null body throws, and so does
  \<^verbatim>\<open>db.ref\<close> on line 103, both before the \<^verbatim>\<open>try\<close>.
\<close>

definition acceptCall :: "env \<Rightarrow> store \<Rightarrow> jsval \<Rightarrow> outcome \<times> store \<times> effect list" where
  "acceptCall env db body =
     (if nullish body then (Unhandled (destructure_error body ''callId''), db, [])
      else
       (let callId = get_prop body ''callId'';
            acceptedByDeviceId = get_prop body ''acceptedByDeviceId'';
            currentUid = get_prop body ''currentUid'';
            token = get_prop body ''token'';
            channel = get_prop body ''channel''
        in if \<not> truthy callId \<or> \<not> truthy acceptedByDeviceId \<or> \<not> truthy currentUid \<or>
              \<not> truthy token \<or> \<not> truthy channel
           then (Reply 400 (JObj [(''error'',
                   JStr ''callId, acceptedByDeviceId, currentUid, token, and channel are all required.'')]),
                 db, [])
           else (case ref_error env (activeCall_path currentUid) of
                   Some e \<Rightarrow> (Unhandled e, db, [])
                 | None \<Rightarrow>
                     accept_try env db callId acceptedByDeviceId currentUid token channel)))"

section \<open>POST /sendRingingNotification\<close>

fun is_array :: "jsval \<Rightarrow> bool" where
  "is_array (JArr xs) = True"
| "is_array v = False"

text \<open>\<^verbatim>\<open>v.length\<close>, read only after \<^verbatim>\<open>Array.isArray(v)\<close>.\<close>

fun js_length :: "jsval \<Rightarrow> nat" where
  "js_length (JArr xs) = length xs"
| "js_length (JStr s) = length s"
| "js_length v = 0"

definition ringingMessage :: "jsval \<Rightarrow> jsval \<Rightarrow> jsval \<Rightarrow> jsval \<Rightarrow> jsval \<Rightarrow> jsval \<Rightarrow> jsval" where
  "ringingMessage fcmTokens callerId callId type channel token =
     JObj [(''data'', JObj [(''type'', type),
                            (''callerId'', callerId),
                            (''callId'', callId),
                            (''channel'', channel),
                            (''token'', token)]),
           (''tokens'', fcmTokens),
           (''priority'', JStr ''high''),
           (''android'', JObj [(''priority'', JStr ''high'')]),
           (''content_available'', JBool True)]"

text \<open>Lines 42-92.\<close>

definition sendRingingNotification :: "env \<Rightarrow> jsval \<Rightarrow> outcome \<times> effect list" where
  "sendRingingNotification env body =
     (if nullish body then (Unhandled (destructure_error body ''fcmTokens''), [])
      else
       (let fcmTokens = get_prop body ''fcmTokens'';
            callerId = get_prop body ''callerId'';
            callId = get_prop body ''callId'';
            type = get_prop body ''type'';
            channel = get_prop body ''channel'';
            token = get_prop body ''token''
        in if \<not> truthy fcmTokens \<or> \<not> is_array fcmTokens \<or> js_length fcmTokens = 0
           then (Reply 400 (JObj [(''error'',
                   JStr ''fcmTokens (array) is required and must not be empty'')]), [])
           else if \<not> truthy callerId \<or> \<not> truthy callId \<or> \<not> truthy type \<or>
                   \<not> truthy channel \<or> \<not> truthy token
           then (Reply 400 (JObj [(''error'',
                   JStr ''callerId, callId, type, channel, and token are all required for a ringing notification.'')]), [])
           else
            (let message = ringingMessage fcmTokens callerId callId type channel token
             in case send_each env message of
                  Inr responses \<Rightarrow>
                    (let successfulSends = length (filter success responses);
                         failedSends = filter (\<lambda>r. \<not> success r) responses
                     in (Reply 200 (JObj [(''message'', JStr ''Ringing notifications sent successfully''),
                                          (''successCount'', JNum (int successfulSends)),
                                          (''failureCount'', JNum (int (length failedSends))),
                                          (''details'', JArr (map js_of_response responses))]),
                         [SendEach message]))
                | Inl error \<Rightarrow>
                    (Reply 500 (JObj [(''error'', JStr ''Failed to send ringing notifications''),
                                      (''details'', JStr error)]),
                     [SendEach message]))))"

section \<open>Serving requests, and the conditions the properties speak of\<close>

text \<open>
  Accept requests handled one after the other on the same store, each with the behaviour
  of the collaborators during that request. The store serialises the transactions, so
  this is what concurrent requests amount to.
\<close>

fun serve :: "store \<Rightarrow> (env \<times> jsval) list \<Rightarrow> outcome list \<times> store" where
  "serve db [] = ([], db)"
| "serve db ((env, body) # rest) =
     (let (out, db1, log) = acceptCall env db body;
          (outs, db2) = serve db1 rest
      in (out # outs, db2))"

text \<open>The five fields that line 99 requires, read from the request body.\<close>

definition accept_fields_present :: "jsval \<Rightarrow> bool" where
  "accept_fields_present body =
     (truthy (get_prop body ''callId'') \<and> truthy (get_prop body ''acceptedByDeviceId'') \<and>
      truthy (get_prop body ''currentUid'') \<and> truthy (get_prop body ''token'') \<and>
      truthy (get_prop body ''channel''))"

text \<open>The five scalar fields that line 49 requires.\<close>

definition ringing_fields_present :: "jsval \<Rightarrow> bool" where
  "ringing_fields_present body =
     (truthy (get_prop body ''callerId'') \<and> truthy (get_prop body ''callId'') \<and>
      truthy (get_prop body ''type'') \<and> truthy (get_prop body ''channel'') \<and>
      truthy (get_prop body ''token''))"

text \<open>
  A device directory as the database holds it: no key is stored with a null value (the
  database stores no nulls), so reading \<^verbatim>\<open>.fcmToken\<close> of any entry does not throw.
\<close>

definition entries_present :: "jsval \<Rightarrow> bool" where
  "entries_present allDevices =
     list_all (\<lambda>k. \<not> nullish (get_prop allDevices k)) (map fst (own_entries allDevices))"

text \<open>The status of a response; an escaped exception has none.\<close>

fun status_of :: "outcome \<Rightarrow> nat option" where
  "status_of (Reply code body) = Some code"
| "status_of (Unhandled e) = None"

text \<open>
  The tokens the loop of lines 143-148 collects when it runs to its end: those of the
  keys, in enumeration order, that are not the accepting device and whose entry has a
  truthy \<^verbatim>\<open>fcmToken\<close>.
\<close>

definition fanout_tokens :: "jsval \<Rightarrow> jsval \<Rightarrow> jsval list" where
  "fanout_tokens acceptedByDeviceId allDevices =
     map (\<lambda>k. get_prop (get_prop allDevices k) ''fcmToken'')
       (filter (\<lambda>k. JStr k \<noteq> acceptedByDeviceId \<and>
                     truthy (get_prop (get_prop allDevices k) ''fcmToken''))
          (map fst (own_entries allDevices)))"


subsection \<open>Concrete inputs\<close>

text \<open>
  The record and the directory of scenarios A and E of the specification, for user
  \<^verbatim>\<open>u1\<close>, and an accept request of device \<^verbatim>\<open>d1\<close>.
\<close>

definition ringing_record :: jsval where
  "ringing_record = JObj [(''callId'', JStr ''c1''), (''status'', JStr ''ringing'')]"

definition accepted_record :: jsval where
  "accepted_record =
     JObj [(''callId'', JStr ''c1''), (''status'', JStr ''in_progress''),
           (''acceptedByDeviceId'', JStr ''d1'')]"

definition directory_E :: jsval where
  "directory_E =
     JObj [(''d1'', JObj [(''fcmToken'', JStr ''t1'')]),
           (''d2'', JObj [(''fcmToken'', JStr ''t2'')]),
           (''d3'', JObj [])]"

definition db_ringing :: store where
  "db_ringing =
     (\<lambda>path. if path = ''calls/u1/activeCall'' then ringing_record
             else if path = ''calls/u1/devices'' then directory_E
             else JNull)"


definition accept_by :: "string \<Rightarrow> string \<Rightarrow> string \<Rightarrow> jsval" where
  "accept_by deviceId token channel =
     JObj [(''callId'', JStr ''c1''), (''acceptedByDeviceId'', JStr deviceId),
           (''currentUid'', JStr ''u1''), (''token'', JStr token), (''channel'', JStr channel)]"

definition ringing_request :: "jsval \<Rightarrow> jsval" where
  "ringing_request fcmTokens =
     JObj [(''fcmTokens'', fcmTokens), (''callerId'', JStr ''u0''), (''callId'', JStr ''c1''),
           (''type'', JStr ''ringing''), (''channel'', JStr ''ch''), (''token'', JStr ''tok'')]"

text \<open>
  Collaborators that all succeed (the transport delivering to the first token and failing
  on the second), and variants in which one of them fails.
\<close>

definition env_ok :: env where
  "env_ok =
     \<lparr>ref_error = (\<lambda>path. None), txn_error = (\<lambda>path. None), once_error = (\<lambda>path. None),
      send_each = (\<lambda>message. Inr [\<lparr>success = True, detail = ''m1''\<rparr>,
                                  \<lparr>success = False, detail = ''not-registered''\<rparr>])\<rparr>"

definition env_read_fails :: env where
  "env_read_fails = env_ok\<lparr>once_error := (\<lambda>path. Some ''unavailable'')\<rparr>"

definition env_send_fails :: env where
  "env_send_fails = env_ok\<lparr>send_each := (\<lambda>message. Inl ''transport unreachable'')\<rparr>"

section \<open>Facts about the JavaScript primitives\<close>

lemma dec_digits: "set (dec n) \<subseteq> set ''0123456789''"
proof (induction n rule: dec.induct)
  case (1 n)
  have d: "\<And>m. m < 10 \<Longrightarrow> ''0123456789'' ! m \<in> set ''0123456789''"
    by (rule nth_mem) simp
  show ?case
  proof (cases "n < 10")
    case True
    then show ?thesis using d[of n] by (subst dec.simps) simp
  next
    case False
    have "n mod 10 < 10" by simp
    with False 1 d[of "n mod 10"] show ?thesis by (subst dec.simps) simp
  qed
qed

lemma named_key_not_index:
  assumes "\<not> set k \<subseteq> set ''0123456789''"
  shows "map_of (zip (map dec ns) xs) k = None"
proof -
  have "k \<notin> set (map dec ns)" using assms dec_digits by auto
  then have "k \<notin> fst ` set (zip (map dec ns) xs)"
    by (auto dest: set_zip_leftD)
  then show ?thesis by (simp add: map_of_eq_None_iff)
qed

lemma named_key_not_index_filter:
  assumes "\<not> set k \<subseteq> set ''0123456789''"
  shows "map_of (filter P (zip (map dec ns) xs)) k = None"
proof -
  have "k \<notin> set (map dec ns)" using assms dec_digits by auto
  then have "k \<notin> fst ` set (filter P (zip (map dec ns) xs))"
    by (auto dest: set_zip_leftD)
  then show ?thesis by (simp add: map_of_eq_None_iff)
qed

lemma get_prop_named_object:
  assumes "get_prop v k \<noteq> JUndefined" and "\<not> set k \<subseteq> set ''0123456789''"
  shows "\<exists>kvs. v = JObj kvs"
  using assms
  by (cases v) (simp_all add: get_prop_def named_key_not_index named_key_not_index_filter)

lemma strict_eq_str [simp]: "strict_eq x (JStr s) = (x = JStr s)"
  by (cases x) auto

lemma strict_eq_str_left [simp]: "strict_eq (JStr s) x = (x = JStr s)"
  by (cases x) auto

lemma falsy_no_props: "\<not> truthy v \<Longrightarrow> get_prop v k = JUndefined"
  by (cases v) (simp_all add: get_prop_def)

lemma truthy_prop_not_nullish: "truthy (get_prop v k) \<Longrightarrow> \<not> nullish v"
  by (cases v) (simp_all add: get_prop_def)

lemma status_not_digits: "\<not> set ''status'' \<subseteq> set ''0123456789''"
  by simp

lemma accept_update_abort_iff:
  "(accept_update c d cur = JUndefined) =
     (cur = JNull \<or> \<not> strict_eq (get_prop cur ''callId'') c \<or>
      get_prop cur ''status'' \<noteq> JStr ''ringing'')"
proof (cases "get_prop cur ''status'' = JStr ''ringing''")
  case True
  then obtain kvs where "cur = JObj kvs"
    using get_prop_named_object[of cur "''status''"] by auto
  with True show ?thesis by (simp add: accept_update_def)
next
  case False
  then show ?thesis by (simp add: accept_update_def)
qed

lemma get_prop_set_prop:
  "get_prop (set_prop (JObj kvs) k x) k' = (if k' = k then x else get_prop (JObj kvs) k')"
  by (simp add: get_prop_def update_conv')

lemma accept_update_commit:
  assumes "accept_update c d cur \<noteq> JUndefined"
  shows "\<exists>kvs. cur = JObj kvs \<and>
           accept_update c d cur =
             JObj (AList.update ''acceptedByDeviceId'' d
                    (AList.update ''status'' (JStr ''in_progress'') kvs))"
proof -
  from assms have s: "get_prop cur ''status'' = JStr ''ringing''"
    and e: "strict_eq (get_prop cur ''callId'') c"
    by (simp_all add: accept_update_abort_iff)
  then obtain kvs where k: "cur = JObj kvs"
    using get_prop_named_object[of cur "''status''"] by auto
  with s e show ?thesis by (simp add: accept_update_def)
qed

section \<open>The conditional transition\<close>

lemma fields_present_not_nullish: "accept_fields_present body \<Longrightarrow> \<not> nullish body"
  by (auto simp: accept_fields_present_def dest: truthy_prop_not_nullish)

lemma paths_distinct: "devices_path u \<noteq> activeCall_path u"
  by (simp add: devices_path_def activeCall_path_def)

lemma run_accept_abort:
  assumes "accept_update c d (db p) = JUndefined"
  shows "run_transaction db p (accept_update c d) = (\<lparr>committed = False, snapshot = db p\<rparr>, db)"
  using assms by (simp add: run_transaction_def)

lemma run_accept_commit:
  assumes "accept_update c d (db p) \<noteq> JUndefined"
  shows "run_transaction db p (accept_update c d) =
           (\<lparr>committed = True, snapshot = accept_update c d (db p)\<rparr>,
            db(p := accept_update c d (db p)))"
  using assms by (simp add: run_transaction_def Let_def)



section \<open>The accept handler\<close>

lemma acceptCall_valid:
  assumes "accept_fields_present body"
    and "ref_error env (activeCall_path (get_prop body ''currentUid'')) = None"
  shows "acceptCall env db body =
           accept_try env db (get_prop body ''callId'') (get_prop body ''acceptedByDeviceId'')
             (get_prop body ''currentUid'') (get_prop body ''token'') (get_prop body ''channel'')"
  using assms fields_present_not_nullish[OF assms(1)]
  by (simp add: acceptCall_def accept_fields_present_def Let_def)

lemma in_progress_exists:
  "(truthy v \<and> get_prop v ''status'' = JStr ''in_progress'') =
   (v \<noteq> JNull \<and> get_prop v ''status'' = JStr ''in_progress'')"
  using get_prop_named_object[of v "''status''"] by auto

lemma accept_try_aborted:
  assumes "txn_error env (activeCall_path u) = None"
    and "accept_update c d (db (activeCall_path u)) = JUndefined"
  shows "accept_try env db c d u t ch =
           (conflict (if db (activeCall_path u) \<noteq> JNull \<and>
                         get_prop (db (activeCall_path u)) ''status'' = JStr ''in_progress''
                      then ''Call already accepted by another device.''
                      else ''Call no longer active or invalid call ID.''),
            db, [Transaction (activeCall_path u)])"
  using assms in_progress_exists[of "db (activeCall_path u)"]
  by (simp add: accept_try_def run_accept_abort)

lemma accept_try_committed:
  assumes "txn_error env (activeCall_path u) = None"
    and "accept_update c d (db (activeCall_path u)) \<noteq> JUndefined"
  shows "accept_try env db c d u t ch =
           notify_others env (db(activeCall_path u := accept_update c d (db (activeCall_path u))))
             [Transaction (activeCall_path u)] c d u t ch"
  using assms by (simp add: accept_try_def run_accept_commit)



text \<open>
  Claim C7. When any of the five fields \<^verbatim>\<open>callId\<close>, \<^verbatim>\<open>acceptedByDeviceId\<close>,
  \<^verbatim>\<open>currentUid\<close>, \<^verbatim>\<open>token\<close>, \<^verbatim>\<open>channel\<close> is missing from the body of an accept request,
  the response is 400, the store is unchanged and no call is made to the store or to the
  push transport, whatever these would have done.
\<close>

theorem missing_field_rejected:
  assumes "\<not> nullish body"
    and "get_prop body ''callId'' = JUndefined \<or> get_prop body ''acceptedByDeviceId'' = JUndefined \<or>
         get_prop body ''currentUid'' = JUndefined \<or> get_prop body ''token'' = JUndefined \<or>
         get_prop body ''channel'' = JUndefined"
  shows "acceptCall env db body =
           (Reply 400 (JObj [(''error'', JStr
              ''callId, acceptedByDeviceId, currentUid, token, and channel are all required.'')]),
            db, [])"
  using assms by (auto simp: acceptCall_def Let_def)

theorem missing_field_rejected_witness:
  "acceptCall env_ok db_ringing
     (JObj [(''callId'', JStr ''c1''), (''acceptedByDeviceId'', JStr ''d1''),
            (''currentUid'', JStr ''u1''), (''channel'', JStr ''ch'')]) =
     (Reply 400 (JObj [(''error'', JStr
        ''callId, acceptedByDeviceId, currentUid, token, and channel are all required.'')]),
      db_ringing, [])"
  using missing_field_rejected [of "JObj [(''callId'', JStr ''c1''), (''acceptedByDeviceId'', JStr ''d1''),
            (''currentUid'', JStr ''u1''), (''channel'', JStr ''ch'')]" env_ok db_ringing]
  by (simp add: get_prop_def)

section \<open>The ringing notification handler\<close>

text \<open>
  Claim C9. A ringing request whose \<^verbatim>\<open>fcmTokens\<close> field is absent, is not an array, or is
  the empty array is answered 400 and nothing is sent. (The stop-ringing fan-out of the
  accept handler, by contrast, skips an empty target list silently: see claim C5.)
\<close>

theorem empty_tokens_rejected:
  assumes "\<not> nullish body"
    and "get_prop body ''fcmTokens'' = JUndefined \<or> \<not> is_array (get_prop body ''fcmTokens'') \<or>
         get_prop body ''fcmTokens'' = JArr []"
  shows "sendRingingNotification env body =
           (Reply 400 (JObj [(''error'', JStr
              ''fcmTokens (array) is required and must not be empty'')]), [])"
  using assms by (auto simp: sendRingingNotification_def Let_def)

theorem empty_tokens_rejected_witness:
  "sendRingingNotification env_ok (ringing_request (JArr [])) =
     (Reply 400 (JObj [(''error'', JStr
        ''fcmTokens (array) is required and must not be empty'')]), [])"
  using empty_tokens_rejected [of "ringing_request (JArr [])" env_ok]
  by (simp add: ringing_request_def get_prop_def)

lemma ringing_valid:
  assumes "get_prop body ''fcmTokens'' = JArr (tk # tks)" and "ringing_fields_present body"
  shows "sendRingingNotification env body =
     (case send_each env (ringingMessage (get_prop body ''fcmTokens'') (get_prop body ''callerId'')
                 (get_prop body ''callId'') (get_prop body ''type'') (get_prop body ''channel'')
                 (get_prop body ''token'')) of
        Inr responses \<Rightarrow>
          (Reply 200 (JObj [(''message'', JStr ''Ringing notifications sent successfully''),
                            (''successCount'', JNum (int (length (filter success responses)))),
                            (''failureCount'',
                               JNum (int (length (filter (\<lambda>r. \<not> success r) responses)))),
                            (''details'', JArr (map js_of_response responses))]),
           [SendEach (ringingMessage (get_prop body ''fcmTokens'') (get_prop body ''callerId'')
                 (get_prop body ''callId'') (get_prop body ''type'') (get_prop body ''channel'')
                 (get_prop body ''token''))])
      | Inl error \<Rightarrow>
          (Reply 500 (JObj [(''error'', JStr ''Failed to send ringing notifications''),
                            (''details'', JStr error)]),
           [SendEach (ringingMessage (get_prop body ''fcmTokens'') (get_prop body ''callerId'')
                 (get_prop body ''callId'') (get_prop body ''type'') (get_prop body ''channel'')
                 (get_prop body ''token''))]))"
proof -
  have "truthy (get_prop body ''callId'')" using assms(2) by (simp add: ringing_fields_present_def)
  then have "\<not> nullish body" by (rule truthy_prop_not_nullish)
  with assms show ?thesis
    by (simp add: sendRingingNotification_def ringing_fields_present_def Let_def split: sum.splits)
qed

lemma ringing_500_only_after_send:
  assumes "status_of (fst (sendRingingNotification env body)) = Some 500"
  shows "\<exists>m e. snd (sendRingingNotification env body) = [SendEach m] \<and> send_each env m = Inl e"
  using assms
  by (auto simp: sendRingingNotification_def Let_def split: if_splits sum.splits)

text \<open>
  Claim C8. For a ringing request that passes validation, whenever the transport returns
  per-token outcomes, be there failures among them or not, the response is 200 with
  \<^verbatim>\<open>successCount\<close> the number of succeeded tokens, \<^verbatim>\<open>failureCount\<close> the number of failed
  ones and the per-token outcomes as \<^verbatim>\<open>details\<close>; the response is 500 exactly when the
  send itself throws.
\<close>

theorem partial_failure_is_success:
  assumes "get_prop body ''fcmTokens'' = JArr (tk # tks)" and "ringing_fields_present body"
    and "message = ringingMessage (get_prop body ''fcmTokens'') (get_prop body ''callerId'')
                 (get_prop body ''callId'') (get_prop body ''type'') (get_prop body ''channel'')
                 (get_prop body ''token'')"
  shows "(send_each env message = Inr responses \<longrightarrow>
            sendRingingNotification env body =
              (Reply 200 (JObj [(''message'', JStr ''Ringing notifications sent successfully''),
                                (''successCount'', JNum (int (length (filter success responses)))),
                                (''failureCount'',
                                   JNum (int (length (filter (\<lambda>r. \<not> success r) responses)))),
                                (''details'', JArr (map js_of_response responses))]),
               [SendEach message]))
       \<and> (status_of (fst (sendRingingNotification env body)) = Some 500) =
           (\<exists>e. send_each env message = Inl e)"
  using ringing_valid[OF assms(1,2), of env] assms(3)
  by (auto split: sum.splits)

theorem partial_failure_is_success_witness:
  "sendRingingNotification env_ok (ringing_request (JArr [JStr ''tA'', JStr ''tB''])) =
     (Reply 200 (JObj [(''message'', JStr ''Ringing notifications sent successfully''),
                       (''successCount'', JNum 1), (''failureCount'', JNum 1),
                       (''details'', JArr [JObj [(''success'', JBool True), (''messageId'', JStr ''m1'')],
                                           JObj [(''success'', JBool False),
                                                 (''error'', JStr ''not-registered'')]])]),
      [SendEach (ringingMessage (JArr [JStr ''tA'', JStr ''tB'']) (JStr ''u0'') (JStr ''c1'')
                   (JStr ''ringing'') (JStr ''ch'') (JStr ''tok''))])
   \<and> status_of (fst (sendRingingNotification env_send_fails
                        (ringing_request (JArr [JStr ''tA'', JStr ''tB''])))) = Some 500"
  using partial_failure_is_success [of "ringing_request (JArr [JStr ''tA'', JStr ''tB''])"
          "JStr ''tA''" "[JStr ''tB'']"
          "ringingMessage (JArr [JStr ''tA'', JStr ''tB'']) (JStr ''u0'') (JStr ''c1'')
                   (JStr ''ringing'') (JStr ''ch'') (JStr ''tok'')" env_ok
          "[\<lparr>success = True, detail = ''m1''\<rparr>, \<lparr>success = False, detail = ''not-registered''\<rparr>]"]
    partial_failure_is_success [of "ringing_request (JArr [JStr ''tA'', JStr ''tB''])"
          "JStr ''tA''" "[JStr ''tB'']"
          "ringingMessage (JArr [JStr ''tA'', JStr ''tB'']) (JStr ''u0'') (JStr ''c1'')
                   (JStr ''ringing'') (JStr ''ch'') (JStr ''tok'')" env_send_fails "[]"]
  by (simp add: ringing_request_def get_prop_def ringing_fields_present_def env_ok_def
        env_send_fails_def js_of_response_def)

section \<open>After the commit: the stop-ringing fan-out\<close>

lemma falsy_no_entries: "\<not> truthy v \<Longrightarrow> own_entries v = []"
  by (cases v) simp_all

lemma collect_tokens_run:
  assumes "list_all (\<lambda>k. \<not> nullish (get_prop dir k)) ks"
  shows "collect_tokens acc dir ks toks =
           Inr (toks @ map (\<lambda>k. get_prop (get_prop dir k) ''fcmToken'')
                         (filter (\<lambda>k. JStr k \<noteq> acc \<and>
                                       truthy (get_prop (get_prop dir k) ''fcmToken'')) ks))"
  using assms
proof (induction ks arbitrary: toks)
  case Nil
  then show ?case by simp
next
  case (Cons k ks)
  then show ?case by (auto simp: eq_commute[of acc])
qed

lemma collect_tokens_all:
  assumes "entries_present dir"
  shows "collect_tokens acc dir (map fst (own_entries dir)) [] = Inr (fanout_tokens acc dir)"
  using assms collect_tokens_run[of dir "map fst (own_entries dir)" acc "[]"]
  by (simp add: entries_present_def fanout_tokens_def)



lemma notify_others_ok:
  assumes "ref_error env (devices_path u) = None" and "once_error env (devices_path u) = None"
    and "entries_present (db (devices_path u))"
  shows "notify_others env db log c d u t ch =
           (accepted_reply c t ch d, db,
            log @ Once (devices_path u) #
              (if fanout_tokens d (db (devices_path u)) = [] then []
               else [SendEach (ringEndedMessage c d (fanout_tokens d (db (devices_path u))))]))"
proof (cases "truthy (db (devices_path u))")
  case True
  with assms show ?thesis
    by (simp add: notify_others_def collect_tokens_all Let_def split: sum.splits)
next
  case False
  then have "fanout_tokens d (db (devices_path u)) = []"
    by (simp add: fanout_tokens_def falsy_no_entries)
  with False assms show ?thesis
    by (simp add: notify_others_def Let_def)
qed

lemma acceptCall_committed:
  assumes "accept_fields_present body"
    and "ref_error env (activeCall_path (get_prop body ''currentUid'')) = None"
    and "txn_error env (activeCall_path (get_prop body ''currentUid'')) = None"
    and "run_transaction db (activeCall_path (get_prop body ''currentUid''))
           (accept_update (get_prop body ''callId'') (get_prop body ''acceptedByDeviceId''))
         = (r, db1)"
    and "committed r"
  shows "acceptCall env db body =
           notify_others env db1 [Transaction (activeCall_path (get_prop body ''currentUid''))]
             (get_prop body ''callId'') (get_prop body ''acceptedByDeviceId'')
             (get_prop body ''currentUid'') (get_prop body ''token'') (get_prop body ''channel'')"
    and "db1 (devices_path (get_prop body ''currentUid'')) =
         db (devices_path (get_prop body ''currentUid''))"
proof -
  let ?p = "activeCall_path (get_prop body ''currentUid'')"
  let ?c = "get_prop body ''callId''" and ?d = "get_prop body ''acceptedByDeviceId''"
  have ne: "accept_update ?c ?d (db ?p) \<noteq> JUndefined"
  proof
    assume "accept_update ?c ?d (db ?p) = JUndefined"
    with assms(4) have "\<not> committed r" by (auto simp: run_accept_abort)
    with assms(5) show False by simp
  qed
  with assms(4) have d: "db1 = db(?p := accept_update ?c ?d (db ?p))"
    by (auto simp: run_accept_commit)
  with ne assms(1-3) show "acceptCall env db body =
           notify_others env db1 [Transaction ?p] ?c ?d
             (get_prop body ''currentUid'') (get_prop body ''token'') (get_prop body ''channel'')"
    by (simp add: acceptCall_valid accept_try_committed)
  from d show "db1 (devices_path (get_prop body ''currentUid'')) =
         db (devices_path (get_prop body ''currentUid''))"
    by (simp add: paths_distinct)
qed

lemma accept_by_fields:
  "get_prop (accept_by d t ch) ''callId'' = JStr ''c1''"
  "get_prop (accept_by d t ch) ''acceptedByDeviceId'' = JStr d"
  "get_prop (accept_by d t ch) ''currentUid'' = JStr ''u1''"
  "get_prop (accept_by d t ch) ''token'' = JStr t"
  "get_prop (accept_by d t ch) ''channel'' = JStr ch"
  by (simp_all add: accept_by_def get_prop_def)

lemma example_paths:
  "activeCall_path (JStr ''u1'') = ''calls/u1/activeCall''"
  "devices_path (JStr ''u1'') = ''calls/u1/devices''"
  by (simp_all add: activeCall_path_def devices_path_def)

lemma db_ringing_at:
  "db_ringing ''calls/u1/activeCall'' = ringing_record"
  "db_ringing ''calls/u1/devices'' = directory_E"
  by (simp_all add: db_ringing_def)

lemma ringing_txn:
  "run_transaction db_ringing ''calls/u1/activeCall'' (accept_update (JStr ''c1'') (JStr ''d1'')) =
     (\<lparr>committed = True, snapshot = accepted_record\<rparr>,
      db_ringing(''calls/u1/activeCall'' := accepted_record))"
  by (simp add: db_ringing_at ringing_record_def accepted_record_def run_transaction_def
        accept_update_def get_prop_def Let_def)

lemma env_ok_fields:
  "ref_error env_ok p = None" "txn_error env_ok p = None" "once_error env_ok p = None"
  by (simp_all add: env_ok_def)


text \<open>
  Claim C4: once the transition has committed, the accept is answered 200 whatever fails
  afterwards. The handler guards the send for that purpose (lines 164-169), but the read of
  the device directory on line 138, which serves the same notification, is left to the
  outer \<^verbatim>\<open>catch\<close>. On the ringing record of scenario A with a failing directory read, the
  transition commits and stays committed, yet the response is 500; when the accepting
  device then retries it is answered 409, so it is never told that it won. With a failing
  send on the same input the response is the 200 the claim describes.
\<close>

theorem post_commit_read_failure_answers_500:
  "committed (fst (run_transaction db_ringing ''calls/u1/activeCall''
                     (accept_update (JStr ''c1'') (JStr ''d1''))))
   \<and> acceptCall env_read_fails db_ringing (accept_by ''d1'' ''tok'' ''ch'') =
       (Reply 500 (JObj [(''error'', JStr ''Internal server error during call acceptance''),
                         (''details'', JStr ''unavailable'')]),
        db_ringing(''calls/u1/activeCall'' := accepted_record),
        [Transaction ''calls/u1/activeCall'', Once ''calls/u1/devices''])
   \<and> acceptCall env_ok (db_ringing(''calls/u1/activeCall'' := accepted_record))
         (accept_by ''d1'' ''tok'' ''ch'') =
       (Reply 409 (JObj [(''error'', JStr ''Call already accepted by another device.'')]),
        db_ringing(''calls/u1/activeCall'' := accepted_record),
        [Transaction ''calls/u1/activeCall''])
   \<and> fst (acceptCall env_send_fails db_ringing (accept_by ''d1'' ''tok'' ''ch'')) =
       Reply 200 (JObj [(''message'', JStr ''Call accepted successfully''),
                        (''callId'', JStr ''c1''), (''token'', JStr ''tok''),
                        (''channel'', JStr ''ch''), (''acceptedByDeviceId'', JStr ''d1'')])"
  by (simp add: db_ringing_def ringing_record_def accepted_record_def directory_E_def
        run_transaction_def accept_update_def get_prop_def Let_def acceptCall_def
        accept_try_def notify_others_def accept_by_def env_read_fails_def env_send_fails_def
        env_ok_def activeCall_path_def devices_path_def internal_error_def conflict_def
        accepted_reply_def)

theorem post_commit_read_failure_answers_500_witness:
  "status_of (fst (acceptCall env_read_fails db_ringing (accept_by ''d1'' ''tok'' ''ch''))) = Some 500
   \<and> fst (snd (acceptCall env_read_fails db_ringing (accept_by ''d1'' ''tok'' ''ch'')))
       ''calls/u1/activeCall'' = accepted_record
   \<and> status_of (fst (acceptCall env_ok (db_ringing(''calls/u1/activeCall'' := accepted_record))
                        (accept_by ''d1'' ''tok'' ''ch''))) = Some 409"
  using post_commit_read_failure_answers_500 by simp

text \<open>
  The guarded step: when the transition commits and the directory is read (and holds no
  null entry), the response is the 200 success response carrying \<^verbatim>\<open>callId\<close>,
  \<^verbatim>\<open>acceptedByDeviceId\<close> and the passthrough \<^verbatim>\<open>token\<close> and \<^verbatim>\<open>channel\<close>, whatever the push
  transport does: a failure of the send is swallowed, and the committed record stays.
\<close>

lemma send_failure_swallowed:
  assumes "accept_fields_present body"
    and "ref_error env (activeCall_path (get_prop body ''currentUid'')) = None"
    and "txn_error env (activeCall_path (get_prop body ''currentUid'')) = None"
    and "run_transaction db (activeCall_path (get_prop body ''currentUid''))
           (accept_update (get_prop body ''callId'') (get_prop body ''acceptedByDeviceId''))
         = (r, db1)"
    and "committed r"
    and "ref_error env (devices_path (get_prop body ''currentUid'')) = None"
    and "once_error env (devices_path (get_prop body ''currentUid'')) = None"
    and "entries_present (db (devices_path (get_prop body ''currentUid'')))"
  shows "fst (acceptCall (env\<lparr>send_each := send\<rparr>) db body) =
           Reply 200 (JObj [(''message'', JStr ''Call accepted successfully''),
                            (''callId'', get_prop body ''callId''),
                            (''token'', get_prop body ''token''),
                            (''channel'', get_prop body ''channel''),
                            (''acceptedByDeviceId'', get_prop body ''acceptedByDeviceId'')])
         \<and> fst (snd (acceptCall (env\<lparr>send_each := send\<rparr>) db body)) = db1"
proof -
  let ?e = "env\<lparr>send_each := send\<rparr>"
  let ?u = "get_prop body ''currentUid''"
  have a: "acceptCall ?e db body =
             notify_others ?e db1 [Transaction (activeCall_path ?u)]
               (get_prop body ''callId'') (get_prop body ''acceptedByDeviceId'')
               ?u (get_prop body ''token'') (get_prop body ''channel'')"
    and b: "db1 (devices_path ?u) = db (devices_path ?u)"
    using acceptCall_committed[of body ?e db r db1] assms(1-5) by simp_all
  have "notify_others ?e db1 [Transaction (activeCall_path ?u)]
               (get_prop body ''callId'') (get_prop body ''acceptedByDeviceId'')
               ?u (get_prop body ''token'') (get_prop body ''channel'') =
         (accepted_reply (get_prop body ''callId'') (get_prop body ''token'')
            (get_prop body ''channel'') (get_prop body ''acceptedByDeviceId''), db1,
          [Transaction (activeCall_path ?u)] @ Once (devices_path ?u) #
              (if fanout_tokens (get_prop body ''acceptedByDeviceId'') (db1 (devices_path ?u)) = []
               then []
               else [SendEach (ringEndedMessage (get_prop body ''callId'')
                       (get_prop body ''acceptedByDeviceId'')
                       (fanout_tokens (get_prop body ''acceptedByDeviceId'')
                          (db1 (devices_path ?u))))]))"
    using assms(6-8) b by (intro notify_others_ok) simp_all
  with a show ?thesis by (simp add: accepted_reply_def)
qed

lemma send_failure_swallowed_example:
  "fst (acceptCall env_send_fails db_ringing (accept_by ''d1'' ''tok'' ''ch'')) =
     Reply 200 (JObj [(''message'', JStr ''Call accepted successfully''),
                      (''callId'', JStr ''c1''), (''token'', JStr ''tok''),
                      (''channel'', JStr ''ch''), (''acceptedByDeviceId'', JStr ''d1'')])
   \<and> fst (snd (acceptCall env_send_fails db_ringing (accept_by ''d1'' ''tok'' ''ch'')))
       ''calls/u1/activeCall'' = accepted_record"
  using send_failure_swallowed [of "accept_by ''d1'' ''tok'' ''ch''" env_ok db_ringing
          "\<lparr>committed = True, snapshot = accepted_record\<rparr>"
          "db_ringing(''calls/u1/activeCall'' := accepted_record)"
          "\<lambda>message. Inl ''transport unreachable''"]
  by (simp add: accept_fields_present_def accept_by_def get_prop_def env_ok_def
        env_send_fails_def activeCall_path_def devices_path_def db_ringing_def
        ringing_record_def accepted_record_def directory_E_def run_transaction_def
        accept_update_def entries_present_def Let_def)



section \<open>What the accept handler writes and sends\<close>

lemma notify_others_frame:
  "fst (snd (notify_others env db log c d u t ch)) = db"
  by (simp add: notify_others_def Let_def split: option.splits sum.splits)

lemma notify_others_log:
  "\<exists>extra. snd (snd (notify_others env db log c d u t ch)) = log @ extra \<and>
     (\<forall>e \<in> set extra. e = Once (devices_path u) \<or> (\<exists>toks. e = SendEach (ringEndedMessage c d toks)))"
  by (auto simp: notify_others_def Let_def split: option.splits sum.splits)

lemma notify_others_passthrough:
  "snd (notify_others env db log c d u t ch) = snd (notify_others env db log c d u t' ch')"
  by (simp add: notify_others_def Let_def split: option.splits sum.splits)

lemma notify_others_status:
  "status_of (fst (notify_others env db log c d u t ch)) \<in> {Some 200, Some 500}"
  by (simp add: notify_others_def Let_def accepted_reply_def internal_error_def
        split: option.splits sum.splits)


lemma accept_try_frame:
  "fst (snd (accept_try env db c d u t ch)) = db \<or>
   (accept_update c d (db (activeCall_path u)) \<noteq> JUndefined \<and>
    fst (snd (accept_try env db c d u t ch)) =
      db(activeCall_path u := accept_update c d (db (activeCall_path u))))"
proof (cases "txn_error env (activeCall_path u)")
  case (Some e)
  then show ?thesis by (simp add: accept_try_def)
next
  case None
  show ?thesis
  proof (cases "accept_update c d (db (activeCall_path u)) = JUndefined")
    case True
    with None show ?thesis by (simp add: accept_try_aborted)
  next
    case False
    with None show ?thesis by (simp add: accept_try_committed notify_others_frame)
  qed
qed

lemma accept_try_log:
  "\<exists>extra. snd (snd (accept_try env db c d u t ch)) = Transaction (activeCall_path u) # extra \<and>
     (\<forall>e \<in> set extra. e = Once (devices_path u) \<or> (\<exists>toks. e = SendEach (ringEndedMessage c d toks)))"
proof (cases "txn_error env (activeCall_path u)")
  case (Some e)
  then show ?thesis by (simp add: accept_try_def)
next
  case None
  show ?thesis
  proof (cases "accept_update c d (db (activeCall_path u)) = JUndefined")
    case True
    with None show ?thesis by (simp add: accept_try_aborted)
  next
    case False
    with None notify_others_log[of env _ "[Transaction (activeCall_path u)]" c d u t ch]
    show ?thesis by (simp add: accept_try_committed)
  qed
qed

lemma accept_try_passthrough:
  "snd (accept_try env db c d u t ch) = snd (accept_try env db c d u t' ch')"
proof (cases "txn_error env (activeCall_path u)")
  case (Some e)
  then show ?thesis by (simp add: accept_try_def)
next
  case None
  show ?thesis
  proof (cases "accept_update c d (db (activeCall_path u)) = JUndefined")
    case True
    with None show ?thesis by (simp add: accept_try_aborted)
  next
    case False
    with None notify_others_passthrough[of env _ _ c d u t ch t' ch']
    show ?thesis by (simp add: accept_try_committed)
  qed
qed

lemma acceptCall_cases:
  "acceptCall env db body = (Unhandled (destructure_error body ''callId''), db, []) \<and> nullish body \<or>
   acceptCall env db body =
     (Reply 400 (JObj [(''error'', JStr
        ''callId, acceptedByDeviceId, currentUid, token, and channel are all required.'')]),
      db, []) \<and> \<not> accept_fields_present body \<or>
   (\<exists>e. acceptCall env db body = (Unhandled e, db, [])) \<and> accept_fields_present body \<or>
   acceptCall env db body =
     accept_try env db (get_prop body ''callId'') (get_prop body ''acceptedByDeviceId'')
       (get_prop body ''currentUid'') (get_prop body ''token'') (get_prop body ''channel'') \<and>
   accept_fields_present body"
  by (auto simp: acceptCall_def accept_fields_present_def Let_def split: option.splits)

lemma acceptCall_frame:
  "fst (snd (acceptCall env db body)) = db \<or>
   (accept_update (get_prop body ''callId'') (get_prop body ''acceptedByDeviceId'')
      (db (activeCall_path (get_prop body ''currentUid''))) \<noteq> JUndefined \<and>
    fst (snd (acceptCall env db body)) =
      db(activeCall_path (get_prop body ''currentUid'') :=
           accept_update (get_prop body ''callId'') (get_prop body ''acceptedByDeviceId'')
             (db (activeCall_path (get_prop body ''currentUid'')))))"
  using acceptCall_cases[of env db body]
    accept_try_frame[of env db "get_prop body ''callId''" "get_prop body ''acceptedByDeviceId''"
      "get_prop body ''currentUid''" "get_prop body ''token''" "get_prop body ''channel''"]
  by (elim disjE conjE exE) simp_all

lemma acceptCall_log:
  "\<forall>e \<in> set (snd (snd (acceptCall env db body))).
     e = Transaction (activeCall_path (get_prop body ''currentUid'')) \<or>
     e = Once (devices_path (get_prop body ''currentUid'')) \<or>
     (\<exists>toks. e = SendEach (ringEndedMessage (get_prop body ''callId'')
                             (get_prop body ''acceptedByDeviceId'') toks))"
  using acceptCall_cases[of env db body]
    accept_try_log[of env db "get_prop body ''callId''" "get_prop body ''acceptedByDeviceId''"
      "get_prop body ''currentUid''" "get_prop body ''token''" "get_prop body ''channel''"]
  by (elim disjE conjE exE) auto

lemma updated_record_fields:
  assumes "accept_update c d cur \<noteq> JUndefined"
  shows "map_of (own_entries (accept_update c d cur)) =
           (map_of (own_entries cur))(''status'' \<mapsto> JStr ''in_progress'',
                                      ''acceptedByDeviceId'' \<mapsto> d)"
    and "get_prop (accept_update c d cur) ''callId'' = get_prop cur ''callId''"
    and "get_prop (accept_update c d cur) ''status'' = JStr ''in_progress''"
    and "get_prop (accept_update c d cur) ''acceptedByDeviceId'' = d"
proof -
  from accept_update_commit[OF assms] obtain kvs where k: "cur = JObj kvs"
    and u: "accept_update c d cur =
             JObj (AList.update ''acceptedByDeviceId'' d
                    (AList.update ''status'' (JStr ''in_progress'') kvs))"
    by blast
  show "map_of (own_entries (accept_update c d cur)) =
           (map_of (own_entries cur))(''status'' \<mapsto> JStr ''in_progress'',
                                      ''acceptedByDeviceId'' \<mapsto> d)"
    using u k by (simp add: update_conv')
  show "get_prop (accept_update c d cur) ''callId'' = get_prop cur ''callId''"
    using u k by (simp add: get_prop_def update_conv')
  show "get_prop (accept_update c d cur) ''status'' = JStr ''in_progress''"
    unfolding u by (simp add: get_prop_def update_conv')
  show "get_prop (accept_update c d cur) ''acceptedByDeviceId'' = d"
    unfolding u by (simp add: get_prop_def update_conv')
qed

text \<open>
  Claim C6. Whatever an accept request does, the store afterwards differs from the store
  before at most at the path of the call record: every other path, the device directory
  among them, holds what it held. At that path the record is either untouched or, after a
  commit, has exactly the two fields \<^verbatim>\<open>status\<close> (now \<^verbatim>\<open>in_progress\<close>) and
  \<^verbatim>\<open>acceptedByDeviceId\<close> (now the requester's device id) set, every other field, \<^verbatim>\<open>callId\<close>
  in particular, being as before. The only transaction the handler runs is on that path.
\<close>

theorem accept_writes_two_fields:
  assumes "acceptCall env db body = (out, db1, log)"
    and "path = activeCall_path (get_prop body ''currentUid'')"
  shows "(\<forall>q. q \<noteq> path \<longrightarrow> db1 q = db q)
       \<and> db1 (devices_path (get_prop body ''currentUid'')) =
           db (devices_path (get_prop body ''currentUid''))
       \<and> (db1 path = db path \<or>
            map_of (own_entries (db1 path)) =
              (map_of (own_entries (db path)))
                (''status'' \<mapsto> JStr ''in_progress'',
                 ''acceptedByDeviceId'' \<mapsto> get_prop body ''acceptedByDeviceId'') \<and>
            get_prop (db1 path) ''callId'' = get_prop (db path) ''callId'')
       \<and> (\<forall>q. Transaction q \<in> set log \<longrightarrow> q = path)"
proof -
  let ?c = "get_prop body ''callId''" and ?d = "get_prop body ''acceptedByDeviceId''"
  let ?u = "get_prop body ''currentUid''"
  have st: "db1 = db \<or> (accept_update ?c ?d (db path) \<noteq> JUndefined \<and>
              db1 = db(path := accept_update ?c ?d (db path)))"
    using acceptCall_frame[of env db body] assms by simp
  have lg: "\<forall>q. Transaction q \<in> set log \<longrightarrow> q = path"
    using acceptCall_log[of env db body] assms by (auto simp: ringEndedMessage_def)
  from st have 1: "\<forall>q. q \<noteq> path \<longrightarrow> db1 q = db q" by auto
  then have 2: "db1 (devices_path ?u) = db (devices_path ?u)"
    using assms(2) paths_distinct by simp
  from st have 3: "db1 path = db path \<or>
            map_of (own_entries (db1 path)) =
              (map_of (own_entries (db path)))
                (''status'' \<mapsto> JStr ''in_progress'', ''acceptedByDeviceId'' \<mapsto> ?d) \<and>
            get_prop (db1 path) ''callId'' = get_prop (db path) ''callId''"
    using updated_record_fields(1,2)[of ?c ?d "db path"] by auto
  from 1 2 3 lg show ?thesis by blast
qed

theorem accept_writes_two_fields_witness:
  "fst (snd (acceptCall env_ok db_ringing (accept_by ''d1'' ''tok'' ''ch''))) =
     db_ringing(''calls/u1/activeCall'' := accepted_record)
   \<and> map_of (own_entries accepted_record) =
       (map_of (own_entries ringing_record))
         (''status'' \<mapsto> JStr ''in_progress'', ''acceptedByDeviceId'' \<mapsto> JStr ''d1'')"
proof -
  have a: "fst (snd (acceptCall env_ok db_ringing (accept_by ''d1'' ''tok'' ''ch''))) =
     db_ringing(''calls/u1/activeCall'' := accepted_record)"
    by (simp add: accept_fields_present_def accept_by_fields acceptCall_valid env_ok_fields
          example_paths ringing_txn accept_try_def notify_others_frame)
  from accept_writes_two_fields [of env_ok db_ringing "accept_by ''d1'' ''tok'' ''ch''"
         "fst (acceptCall env_ok db_ringing (accept_by ''d1'' ''tok'' ''ch''))"
         "fst (snd (acceptCall env_ok db_ringing (accept_by ''d1'' ''tok'' ''ch'')))"
         "snd (snd (acceptCall env_ok db_ringing (accept_by ''d1'' ''tok'' ''ch'')))"
         "''calls/u1/activeCall''"]
  have "fst (snd (acceptCall env_ok db_ringing (accept_by ''d1'' ''tok'' ''ch'')))
          ''calls/u1/activeCall'' = db_ringing ''calls/u1/activeCall'' \<or>
        map_of (own_entries (fst (snd (acceptCall env_ok db_ringing (accept_by ''d1'' ''tok'' ''ch'')))
                  ''calls/u1/activeCall'')) =
         (map_of (own_entries (db_ringing ''calls/u1/activeCall'')))
           (''status'' \<mapsto> JStr ''in_progress'', ''acceptedByDeviceId'' \<mapsto> JStr ''d1'')"
    by (auto simp: accept_by_fields example_paths)
  with a show ?thesis
    by (auto simp: db_ringing_at accepted_record_def ringing_record_def)
qed

text \<open>
  Claim C10. Two accept requests that differ only in \<^verbatim>\<open>token\<close> and \<^verbatim>\<open>channel\<close> (both
  present) leave the same store and make the same calls, with the same stop-ringing
  message; and the data of every message sent are exactly \<^verbatim>\<open>type\<close> = \<^verbatim>\<open>ring_ended\<close>,
  \<^verbatim>\<open>callId\<close> and \<^verbatim>\<open>acceptedByDeviceId\<close>.
\<close>

theorem ring_ended_ignores_passthrough:
  assumes "get_prop body2 ''callId'' = get_prop body1 ''callId''"
    and "get_prop body2 ''acceptedByDeviceId'' = get_prop body1 ''acceptedByDeviceId''"
    and "get_prop body2 ''currentUid'' = get_prop body1 ''currentUid''"
    and "truthy (get_prop body1 ''token'')" and "truthy (get_prop body1 ''channel'')"
    and "truthy (get_prop body2 ''token'')" and "truthy (get_prop body2 ''channel'')"
  shows "snd (acceptCall env db body1) = snd (acceptCall env db body2)
       \<and> (\<forall>m. SendEach m \<in> set (snd (snd (acceptCall env db body1))) \<longrightarrow>
              get_prop m ''data'' =
                JObj [(''type'', JStr ''ring_ended''),
                      (''callId'', get_prop body1 ''callId''),
                      (''acceptedByDeviceId'', get_prop body1 ''acceptedByDeviceId'')])"
proof -
  have n: "\<not> nullish body1" "\<not> nullish body2"
    using assms(4,6) by (auto dest: truthy_prop_not_nullish)
  have "snd (acceptCall env db body1) = snd (acceptCall env db body2)"
    using n assms
      accept_try_passthrough[of env db "get_prop body1 ''callId''"
        "get_prop body1 ''acceptedByDeviceId''" "get_prop body1 ''currentUid''"
        "get_prop body1 ''token''" "get_prop body1 ''channel''"
        "get_prop body2 ''token''" "get_prop body2 ''channel''"]
    by (simp add: acceptCall_def Let_def split: option.splits)
  moreover have "\<forall>m. SendEach m \<in> set (snd (snd (acceptCall env db body1))) \<longrightarrow>
              get_prop m ''data'' =
                JObj [(''type'', JStr ''ring_ended''),
                      (''callId'', get_prop body1 ''callId''),
                      (''acceptedByDeviceId'', get_prop body1 ''acceptedByDeviceId'')]"
    using acceptCall_log[of env db body1]
    by (auto simp: ringEndedMessage_def get_prop_def)
  ultimately show ?thesis by simp
qed

theorem ring_ended_ignores_passthrough_witness:
  "snd (acceptCall env_ok db_ringing (accept_by ''d1'' ''tok'' ''ch'')) =
   snd (acceptCall env_ok db_ringing (accept_by ''d1'' ''secret'' ''room''))
   \<and> SendEach (ringEndedMessage (JStr ''c1'') (JStr ''d1'') [JStr ''t2''])
       \<in> set (snd (snd (acceptCall env_ok db_ringing (accept_by ''d1'' ''tok'' ''ch''))))
   \<and> get_prop (ringEndedMessage (JStr ''c1'') (JStr ''d1'') [JStr ''t2'']) ''data'' =
       JObj [(''type'', JStr ''ring_ended''), (''callId'', JStr ''c1''),
             (''acceptedByDeviceId'', JStr ''d1'')]"
proof -
  have l: "snd (snd (acceptCall env_ok db_ringing (accept_by ''d1'' ''tok'' ''ch''))) =
     [Transaction ''calls/u1/activeCall'', Once ''calls/u1/devices'',
      SendEach (ringEndedMessage (JStr ''c1'') (JStr ''d1'') [JStr ''t2''])]"
    by (simp add: db_ringing_def ringing_record_def directory_E_def run_transaction_def
        accept_update_def get_prop_def Let_def acceptCall_def accept_try_def notify_others_def
        accept_by_def env_ok_def activeCall_path_def devices_path_def accepted_reply_def)
  from ring_ended_ignores_passthrough [of "accept_by ''d1'' ''secret'' ''room''"
         "accept_by ''d1'' ''tok'' ''ch''" env_ok db_ringing]
  have "snd (acceptCall env_ok db_ringing (accept_by ''d1'' ''tok'' ''ch'')) =
          snd (acceptCall env_ok db_ringing (accept_by ''d1'' ''secret'' ''room'')) \<and>
        (\<forall>m. SendEach m \<in> set (snd (snd (acceptCall env_ok db_ringing (accept_by ''d1'' ''tok'' ''ch'')))) \<longrightarrow>
              get_prop m ''data'' =
                JObj [(''type'', JStr ''ring_ended''), (''callId'', JStr ''c1''),
                      (''acceptedByDeviceId'', JStr ''d1'')])"
    by (simp add: accept_by_fields)
  with l show ?thesis by simp
qed

lemma accept_try_abort_outcome:
  assumes "accept_update c d (db (activeCall_path u)) = JUndefined"
  shows "status_of (fst (accept_try env db c d u t ch)) \<noteq> Some 200"
proof (cases "txn_error env (activeCall_path u)")
  case (Some e)
  then show ?thesis by (simp add: accept_try_def internal_error_def)
next
  case None
  with assms show ?thesis by (simp add: accept_try_aborted conflict_def)
qed

lemma in_progress_aborts:
  assumes "get_prop cur ''status'' = JStr ''in_progress''"
  shows "accept_update c d cur = JUndefined"
  using assms by (simp add: accept_update_abort_iff)

lemma accept_on_accepted_record:
  assumes "get_prop (db p) ''status'' = JStr ''in_progress''"
  shows "fst (snd (acceptCall env db body)) p = db p"
    and "activeCall_path (get_prop body ''currentUid'') = p \<Longrightarrow>
           status_of (fst (acceptCall env db body)) \<noteq> Some 200"
    and "activeCall_path (get_prop body ''currentUid'') = p \<Longrightarrow> accept_fields_present body \<Longrightarrow>
           ref_error env p = None \<Longrightarrow> txn_error env p = None \<Longrightarrow>
           fst (acceptCall env db body) = conflict ''Call already accepted by another device.''"
proof -
  let ?q = "activeCall_path (get_prop body ''currentUid'')"
  let ?c = "get_prop body ''callId''" and ?d = "get_prop body ''acceptedByDeviceId''"
  have ab: "?q = p \<Longrightarrow> accept_update ?c ?d (db ?q) = JUndefined"
    using assms by (simp add: in_progress_aborts)
  show "fst (snd (acceptCall env db body)) p = db p"
    using acceptCall_frame[of env db body] ab by (cases "?q = p") auto
  show "status_of (fst (acceptCall env db body)) \<noteq> Some 200" if "?q = p"
    using acceptCall_cases[of env db body] ab[OF that]
      accept_try_abort_outcome[of ?c ?d db "get_prop body ''currentUid''" env
        "get_prop body ''token''" "get_prop body ''channel''"]
    by (elim disjE conjE exE) simp_all
  show "fst (acceptCall env db body) = conflict ''Call already accepted by another device.''"
    if "?q = p" "accept_fields_present body" "ref_error env p = None" "txn_error env p = None"
  proof -
    have "db p \<noteq> JNull" using assms by (auto simp: get_prop_def)
    with that ab[OF that(1)] assms show ?thesis
      by (simp add: acceptCall_valid accept_try_aborted)
  qed
qed

lemma serve_accepted_record:
  assumes "get_prop (db p) ''status'' = JStr ''in_progress''" and "serve db later = (outs, db2)"
  shows "db2 p = db p \<and>
         list_all2 (\<lambda>(env, body) out.
            activeCall_path (get_prop body ''currentUid'') = p \<longrightarrow>
              status_of out \<noteq> Some 200 \<and>
              (accept_fields_present body \<and> ref_error env p = None \<and> txn_error env p = None \<longrightarrow>
                 out = conflict ''Call already accepted by another device.'')) later outs"
  using assms
proof (induction later arbitrary: db outs db2)
  case Nil
  then show ?case by simp
next
  case (Cons x later)
  obtain env body where x: "x = (env, body)" by (cases x)
  obtain out db1 log where a: "acceptCall env db body = (out, db1, log)"
    by (cases "acceptCall env db body")
  obtain outs1 db3 where s: "serve db1 later = (outs1, db3)" by (cases "serve db1 later")
  from Cons.prems(2) x a s have o: "outs = out # outs1" and d: "db2 = db3" by simp_all
  have k: "db1 p = db p"
    using accept_on_accepted_record(1)[where db=db and p=p and env=env and body=body]
      Cons.prems(1) a by simp
  with Cons.prems(1) have "get_prop (db1 p) ''status'' = JStr ''in_progress''" by simp
  from Cons.IH[OF this s] k d have
    "db2 p = db p" and r: "list_all2 (\<lambda>(env, body) out.
            activeCall_path (get_prop body ''currentUid'') = p \<longrightarrow>
              status_of out \<noteq> Some 200 \<and>
              (accept_fields_present body \<and> ref_error env p = None \<and> txn_error env p = None \<longrightarrow>
                 out = conflict ''Call already accepted by another device.'')) later outs1"
    by simp_all
  moreover have "activeCall_path (get_prop body ''currentUid'') = p \<longrightarrow>
              status_of out \<noteq> Some 200 \<and>
              (accept_fields_present body \<and> ref_error env p = None \<and> txn_error env p = None \<longrightarrow>
                 out = conflict ''Call already accepted by another device.'')"
    using accept_on_accepted_record(2,3)[where db=db and p=p and env=env and body=body]
      Cons.prems(1) a by auto
  ultimately show ?case using o x by simp
qed

section \<open>At most one acceptance\<close>

text \<open>
  Claim C1. Once a commit has moved a call record to \<^verbatim>\<open>in_progress\<close>, then over every
  sequence of later accept requests, whoever sends them and whatever the collaborators do:
  the record stays exactly as the commit left it, \<^verbatim>\<open>acceptedByDeviceId\<close> included; no
  further transition on it commits, for any call id and device; no request addressed to
  it is answered 200; and each such request that passes validation and reaches the
  transaction is answered 409.
\<close>

theorem accepted_at_most_once:
  assumes "run_transaction db path (accept_update callId deviceId) = (r, db1)"
    and "committed r"
    and "serve db1 later = (outs, db2)"
  shows "db2 path = db1 path
       \<and> get_prop (db2 path) ''status'' = JStr ''in_progress''
       \<and> get_prop (db2 path) ''acceptedByDeviceId'' = deviceId
       \<and> (\<forall>callId' deviceId'.
            \<not> committed (fst (run_transaction db2 path (accept_update callId' deviceId'))))
       \<and> list_all2 (\<lambda>(env, body) out.
            activeCall_path (get_prop body ''currentUid'') = path \<longrightarrow>
              status_of out \<noteq> Some 200 \<and>
              (accept_fields_present body \<and> ref_error env path = None \<and>
               txn_error env path = None \<longrightarrow>
                 out = Reply 409 (JObj [(''error'',
                         JStr ''Call already accepted by another device.'')]))) later outs"
proof -
  have ne: "accept_update callId deviceId (db path) \<noteq> JUndefined"
  proof
    assume "accept_update callId deviceId (db path) = JUndefined"
    with assms(1) have "\<not> committed r" by (auto simp: run_accept_abort)
    with assms(2) show False by simp
  qed
  with assms(1) have d: "db1 path = accept_update callId deviceId (db path)"
    by (auto simp: run_accept_commit)
  with updated_record_fields(3,4)[OF ne]
  have s: "get_prop (db1 path) ''status'' = JStr ''in_progress''"
    and a: "get_prop (db1 path) ''acceptedByDeviceId'' = deviceId" by simp_all
  from serve_accepted_record[OF s assms(3)] have k: "db2 path = db1 path"
    and l: "list_all2 (\<lambda>(env, body) out.
            activeCall_path (get_prop body ''currentUid'') = path \<longrightarrow>
              status_of out \<noteq> Some 200 \<and>
              (accept_fields_present body \<and> ref_error env path = None \<and>
               txn_error env path = None \<longrightarrow>
                 out = conflict ''Call already accepted by another device.'')) later outs"
    by simp_all
  have "\<not> committed (fst (run_transaction db2 path (accept_update c' d')))" for c' d'
    using k s by (simp add: run_accept_abort in_progress_aborts)
  with k s a l show ?thesis by (simp add: conflict_def)
qed

theorem accepted_at_most_once_witness:
  "fst (serve (db_ringing(''calls/u1/activeCall'' := accepted_record))
          [(env_ok, accept_by ''d2'' ''tok'' ''ch''), (env_ok, accept_by ''d1'' ''tok'' ''ch'')]) =
     [Reply 409 (JObj [(''error'', JStr ''Call already accepted by another device.'')]),
      Reply 409 (JObj [(''error'', JStr ''Call already accepted by another device.'')])]
   \<and> snd (serve (db_ringing(''calls/u1/activeCall'' := accepted_record))
          [(env_ok, accept_by ''d2'' ''tok'' ''ch''), (env_ok, accept_by ''d1'' ''tok'' ''ch'')])
       ''calls/u1/activeCall'' = accepted_record"
  using accepted_at_most_once [of db_ringing "''calls/u1/activeCall''" "JStr ''c1''" "JStr ''d1''"
          "\<lparr>committed = True, snapshot = accepted_record\<rparr>"
          "db_ringing(''calls/u1/activeCall'' := accepted_record)"
          "[(env_ok, accept_by ''d2'' ''tok'' ''ch''), (env_ok, accept_by ''d1'' ''tok'' ''ch'')]"
          "fst (serve (db_ringing(''calls/u1/activeCall'' := accepted_record))
             [(env_ok, accept_by ''d2'' ''tok'' ''ch''), (env_ok, accept_by ''d1'' ''tok'' ''ch'')])"
          "snd (serve (db_ringing(''calls/u1/activeCall'' := accepted_record))
             [(env_ok, accept_by ''d2'' ''tok'' ''ch''), (env_ok, accept_by ''d1'' ''tok'' ''ch'')])"]
  by (auto simp: ringing_txn list_all2_Cons1 accept_by_fields example_paths env_ok_fields
        accept_fields_present_def)

end
